theory Spec2Isabelle
  imports Complex_Main
begin

section \<open>JavaScript dates, as the handlers use them\<close>

text \<open>
  A \<open>Date\<close> is its time value: milliseconds since 1970-01-01T00:00:00Z, an \<open>int\<close>.
  The local-time methods (\<open>getFullYear\<close>, \<open>getDate\<close>, \<open>getDay\<close>, \<open>setHours\<close>,
  \<open>setDate\<close>, the constructor \<open>new Date(y, m, d)\<close>) read the time value shifted by
  the offset \<open>tz\<close> of the process's timezone, in milliseconds east of UTC. The offset is
  a constant: daylight-saving transitions are not modelled. The calendar functions are
  those of ECMAScript (Day, DayFromYear, YearFromTime, MonthFromTime, DateFromTime,
  MakeDay).

  Numbers are exact integers. A JavaScript number is a double, which is exact for
  integers of magnitude up to 2^53; the functions below are those of the source on
  numbers in that range. The range of a \<open>Date\<close> (\<open>TimeClip\<close>, at most 8.64e15 ms from
  the epoch) is applied where a handler computes a date from stored data, the next date
  of the completion handler; the other functions are those of the source on the dates
  of that range.
\<close>

definition msPerDay :: int where
  "msPerDay = 86400000"

definition Day :: "int \<Rightarrow> int" where
  "Day t = t div msPerDay"

definition TimeWithinDay :: "int \<Rightarrow> int" where
  "TimeWithinDay t = t mod msPerDay"

definition DayFromYear :: "int \<Rightarrow> int" where
  "DayFromYear y =
     365 * (y - 1970) + (y - 1969) div 4 - (y - 1901) div 100 + (y - 1601) div 400"

definition InLeapYear :: "int \<Rightarrow> bool" where
  "InLeapYear y = (y mod 4 = 0 \<and> (y mod 100 \<noteq> 0 \<or> y mod 400 = 0))"

text \<open>
  ECMAScript's YearFromTime is the largest year whose first day is not after the given
  day. It is computed here from the mean year length, corrected by one year either way;
  \<open>YearFromDay_bounds\<close> and \<open>YearFromDay_largest\<close> below prove that this is that
  largest year.
\<close>

definition YearFromDay :: "int \<Rightarrow> int" where
  "YearFromDay d =
     (let y0 = 1970 + (400 * d) div 146097
      in if d < DayFromYear y0 then y0 - 1
         else if DayFromYear (y0 + 1) \<le> d then y0 + 1
         else y0)"

definition DayWithinYear :: "int \<Rightarrow> int" where
  "DayWithinYear d = d - DayFromYear (YearFromDay d)"

definition leapDays :: "int \<Rightarrow> int" where
  "leapDays y = (if InLeapYear y then 1 else 0)"

text \<open>The day within the year on which month \<open>m\<close> (0 to 11) starts.\<close>

definition monthStart :: "int \<Rightarrow> int \<Rightarrow> int" where
  "monthStart y m =
     (if m = 0 then 0
      else if m = 1 then 31
      else if m = 2 then 59 + leapDays y
      else if m = 3 then 90 + leapDays y
      else if m = 4 then 120 + leapDays y
      else if m = 5 then 151 + leapDays y
      else if m = 6 then 181 + leapDays y
      else if m = 7 then 212 + leapDays y
      else if m = 8 then 243 + leapDays y
      else if m = 9 then 273 + leapDays y
      else if m = 10 then 304 + leapDays y
      else 334 + leapDays y)"

definition MonthFromDay :: "int \<Rightarrow> int" where
  "MonthFromDay d =
     (let y = YearFromDay d; w = DayWithinYear d
      in if w < 31 then 0
         else if w < 59 + leapDays y then 1
         else if w < 90 + leapDays y then 2
         else if w < 120 + leapDays y then 3
         else if w < 151 + leapDays y then 4
         else if w < 181 + leapDays y then 5
         else if w < 212 + leapDays y then 6
         else if w < 243 + leapDays y then 7
         else if w < 273 + leapDays y then 8
         else if w < 304 + leapDays y then 9
         else if w < 334 + leapDays y then 10
         else 11)"

definition DateFromDay :: "int \<Rightarrow> int" where
  "DateFromDay d = DayWithinYear d - monthStart (YearFromDay d) (MonthFromDay d) + 1"

text \<open>
  MakeDay: the day number of day-of-month \<open>dt\<close> in month \<open>m\<close> of year \<open>y\<close>; a month
  outside 0 to 11 carries into the year, a day outside the month into the neighbouring
  months.
\<close>

definition MakeDay :: "int \<Rightarrow> int \<Rightarrow> int \<Rightarrow> int" where
  "MakeDay y m dt =
     (let ym = y + m div 12; mn = m mod 12
      in DayFromYear ym + monthStart ym mn + dt - 1)"

definition WeekDay :: "int \<Rightarrow> int" where
  "WeekDay d = (d + 4) mod 7"

text \<open>
  The constructor \<open>new Date(y, m, d)\<close> and \<open>Date.UTC(y, m, d)\<close> read a year from 0 to
  99 as 1900 + y.
\<close>

definition fullYearArg :: "int \<Rightarrow> int" where
  "fullYearArg y = (if 0 \<le> y \<and> y \<le> 99 then 1900 + y else y)"

definition DateUTC :: "int \<Rightarrow> int \<Rightarrow> int \<Rightarrow> int" where
  "DateUTC y m dt = MakeDay (fullYearArg y) m dt * msPerDay"

definition newDate :: "int \<Rightarrow> int \<Rightarrow> int \<Rightarrow> int \<Rightarrow> int" where
  "newDate tz y m dt = MakeDay (fullYearArg y) m dt * msPerDay - tz"

definition getFullYear :: "int \<Rightarrow> int \<Rightarrow> int" where
  "getFullYear tz t = YearFromDay (Day (t + tz))"

definition getMonth :: "int \<Rightarrow> int \<Rightarrow> int" where
  "getMonth tz t = MonthFromDay (Day (t + tz))"

definition getDate :: "int \<Rightarrow> int \<Rightarrow> int" where
  "getDate tz t = DateFromDay (Day (t + tz))"

definition getDay :: "int \<Rightarrow> int \<Rightarrow> int" where
  "getDay tz t = WeekDay (Day (t + tz))"

definition setHours :: "int \<Rightarrow> int \<Rightarrow> int \<Rightarrow> int \<Rightarrow> int \<Rightarrow> int \<Rightarrow> int" where
  "setHours tz t h mi s ms =
     Day (t + tz) * msPerDay + (h * 3600000 + mi * 60000 + s * 1000 + ms) - tz"

definition setDate :: "int \<Rightarrow> int \<Rightarrow> int \<Rightarrow> int" where
  "setDate tz t dt =
     (let l = t + tz
      in MakeDay (YearFromDay (Day l)) (MonthFromDay (Day l)) dt * msPerDay
           + TimeWithinDay l - tz)"

text \<open>
  \<open>TimeClip\<close>: a time value further than 8.64e15 ms from the epoch is no date; the
  \<open>Date\<close> is invalid (\<open>None\<close>), its time value and all its fields are \<open>NaN\<close>.
\<close>

definition TimeClip :: "int \<Rightarrow> int option" where
  "TimeClip t = (if \<bar>t\<bar> \<le> 8640000000000000 then Some t else None)"

text \<open>\<open>Math.round\<close> rounds to the nearest integer, a half upwards.\<close>

definition MathRound :: "rat \<Rightarrow> int" where
  "MathRound x = \<lfloor>x + 1 / 2\<rfloor>"

definition MathCeil :: "rat \<Rightarrow> int" where
  "MathCeil x = \<lceil>x\<rceil>"

section \<open>The week number\<close>

text \<open>
  The server's \<open>getWeekNumber\<close> (the edge function):
  \<^verbatim>\<open>
  const tempDate = new Date(date.getTime());
  tempDate.setHours(0, 0, 0, 0);
  tempDate.setDate(tempDate.getDate() + 3 - (tempDate.getDay() + 6) % 7);
  const week1 = new Date(tempDate.getFullYear(), 0, 4);
  return 1 + Math.round(((tempDate.getTime() - week1.getTime()) / 86400000
                         - 3 + (week1.getDay() + 6) % 7) / 7);
  \<close>
\<close>

definition getWeekNumber :: "int \<Rightarrow> int \<Rightarrow> int" where
  "getWeekNumber tz date =
     (let tempDate = date;
          tempDate = setHours tz tempDate 0 0 0 0;
          tempDate = setDate tz tempDate
                       (getDate tz tempDate + 3 - (getDay tz tempDate + 6) mod 7);
          week1 = newDate tz (getFullYear tz tempDate) 0 4
      in 1 + MathRound ((of_int (tempDate - week1) / 86400000
                           - 3 + of_int ((getDay tz week1 + 6) mod 7)) / 7))"

text \<open>
  The client's \<open>getWeekNumber\<close> (DelayedDevices, DeviceChecks, WeeklyPlanner):
  \<^verbatim>\<open>
  const d = new Date(Date.UTC(date.getFullYear(), date.getMonth(), date.getDate()));
  const dayNum = d.getUTCDay() || 7;
  d.setUTCDate(d.getUTCDate() + 4 - dayNum);
  const yearStart = new Date(Date.UTC(d.getUTCFullYear(), 0, 1));
  return Math.ceil((((d.getTime() - yearStart.getTime()) / 86400000) + 1) / 7);
  \<close>
  The UTC methods are the local ones at offset 0.
\<close>

definition getWeekNumberClient :: "int \<Rightarrow> int \<Rightarrow> int" where
  "getWeekNumberClient tz date =
     (let d = DateUTC (getFullYear tz date) (getMonth tz date) (getDate tz date);
          dayNum = (if getDay 0 d = 0 then 7 else getDay 0 d);
          d = setDate 0 d (getDate 0 d + 4 - dayNum);
          yearStart = DateUTC (getFullYear 0 d) 0 1
      in MathCeil ((of_int (d - yearStart) / 86400000 + 1) / 7))"


text \<open>
  The Thursday of the Monday-to-Sunday week that holds day \<open>D\<close>: the day both functions
  move to before counting weeks.
\<close>

definition thursdayOf :: "int \<Rightarrow> int" where
  "thursdayOf D = D + 3 - (WeekDay D + 6) mod 7"

section \<open>Strings and JSON values\<close>

text \<open>
  A stored document is a JSON object: a finite map from field names to values. A field
  that is \<open>undefined\<close> in JavaScript is absent (\<open>None\<close>), as it is after
  serialisation. Field values are strings, integers and arrays of strings; \<open>null\<close>,
  booleans, fractions and nested objects do not occur in the documents of the modelled
  handlers and are left out. Strings are ASCII.
\<close>

datatype jsval = JStr string | JNum int | JArr "string list"

type_synonym doc = "string \<rightharpoonup> jsval"

definition startsWith :: "string \<Rightarrow> string \<Rightarrow> bool" where
  "startsWith s p = (take (length p) s = p)"

definition digitChar :: "nat \<Rightarrow> char" where
  "digitChar n = ''0123456789'' ! (n mod 10)"

fun showNat :: "nat \<Rightarrow> string" where
  "showNat n = (if n < 10 then [digitChar n] else showNat (n div 10) @ [digitChar n])"

declare showNat.simps [simp del]

definition showInt :: "int \<Rightarrow> string" where
  "showInt i = (if i < 0 then ''-'' @ showNat (nat (- i)) else showNat (nat i))"

fun joinComma :: "string list \<Rightarrow> string" where
  "joinComma [] = []"
| "joinComma [x] = x"
| "joinComma (x # y # ys) = x @ '','' @ joinComma (y # ys)"

text \<open>
  \<open>toStr\<close> is the conversion of a template literal \<open>`${v}`\<close>, which is also how
  the database client renders the value of an equality filter.
\<close>

definition toStr :: "jsval option \<Rightarrow> string" where
  "toStr v = (case v of
                None \<Rightarrow> ''undefined''
              | Some (JStr s) \<Rightarrow> s
              | Some (JNum n) \<Rightarrow> showInt n
              | Some (JArr xs) \<Rightarrow> joinComma xs)"

definition isWhiteSpace :: "char \<Rightarrow> bool" where
  "isWhiteSpace c = (of_char c \<in> {9, 10, 11, 12, 13, 32 :: nat})"

definition digitVal :: "char \<Rightarrow> nat option" where
  "digitVal c =
     (let n = (of_char c :: nat)
      in if 48 \<le> n \<and> n \<le> 57 then Some (n - 48)
         else if 97 \<le> n \<and> n \<le> 122 then Some (n - 87)
         else if 65 \<le> n \<and> n \<le> 90 then Some (n - 55)
         else None)"

definition isRadixDigit :: "nat \<Rightarrow> char \<Rightarrow> bool" where
  "isRadixDigit r c = (case digitVal c of None \<Rightarrow> False | Some v \<Rightarrow> v < r)"

definition digitsValue :: "nat \<Rightarrow> string \<Rightarrow> nat" where
  "digitsValue r z = foldl (\<lambda>acc c. acc * r + (case digitVal c of None \<Rightarrow> 0 | Some v \<Rightarrow> v)) 0 z"

text \<open>
  \<open>parseInt(v)\<close> with no radix: the argument is converted to a string; leading white
  space is skipped, a sign is read, a prefix \<open>0x\<close> or \<open>0X\<close> selects radix 16, and the
  longest run of digits is the value. No digit at all gives \<open>NaN\<close>, here \<open>None\<close>.
  The value is exact; the source's is the nearest double, the same number up to 2^53.
\<close>

definition parseInt :: "jsval option \<Rightarrow> int option" where
  "parseInt v =
     (let s = dropWhile isWhiteSpace (toStr v);
          sign = (if startsWith s ''-'' then - 1 else 1 :: int);
          s = (if startsWith s ''+'' \<or> startsWith s ''-'' then drop 1 s else s);
          hex = (startsWith s ''0x'' \<or> startsWith s ''0X'');
          R = (if hex then 16 else 10);
          s = (if hex then drop 2 s else s);
          z = takeWhile (isRadixDigit R) s
      in if z = [] then None else Some (sign * int (digitsValue R z)))"

text \<open>
  The conversion to a number that \<open>*\<close> applies to its operand. Of the numeric
  strings only decimal integers are modelled; every other string is \<open>NaN\<close>.
\<close>

definition strToNumber :: "string \<Rightarrow> int option" where
  "strToNumber s0 =
     (let s = rev (dropWhile isWhiteSpace (rev (dropWhile isWhiteSpace s0)));
          sign = (if startsWith s ''-'' then - 1 else 1 :: int);
          z = (if startsWith s ''+'' \<or> startsWith s ''-'' then drop 1 s else s)
      in if s = [] then Some 0
         else if z \<noteq> [] \<and> list_all (isRadixDigit 10) z then Some (sign * int (digitsValue 10 z))
         else None)"

definition toNumber :: "jsval option \<Rightarrow> int option" where
  "toNumber v = (case v of
                   None \<Rightarrow> None
                 | Some (JNum n) \<Rightarrow> Some n
                 | Some (JStr s) \<Rightarrow> strToNumber s
                 | Some (JArr xs) \<Rightarrow> strToNumber (joinComma xs))"

text \<open>Comparisons of numbers that may be \<open>NaN\<close>: with a \<open>NaN\<close> operand they are false.\<close>

definition jsLess :: "int option \<Rightarrow> int option \<Rightarrow> bool" where
  "jsLess a b = (case (a, b) of (Some x, Some y) \<Rightarrow> x < y | _ \<Rightarrow> False)"

definition jsEq :: "int option \<Rightarrow> int option \<Rightarrow> bool" where
  "jsEq a b = (case (a, b) of (Some x, Some y) \<Rightarrow> x = y | _ \<Rightarrow> False)"

definition padZero :: "nat \<Rightarrow> int \<Rightarrow> string" where
  "padZero n i = (let s = showNat (nat i) in replicate (n - length s) CHR ''0'' @ s)"

definition toISOString :: "int \<Rightarrow> string" where
  "toISOString t =
     (let d = Day t; y = YearFromDay d; ms = TimeWithinDay t
      in (if 0 \<le> y \<and> y \<le> 9999 then padZero 4 y
          else (if y < 0 then ''-'' else ''+'') @ padZero 6 \<bar>y\<bar>)
         @ ''-'' @ padZero 2 (MonthFromDay d + 1) @ ''-'' @ padZero 2 (DateFromDay d)
         @ ''T'' @ padZero 2 (ms div 3600000) @ '':'' @ padZero 2 (ms div 60000 mod 60)
         @ '':'' @ padZero 2 (ms div 1000 mod 60) @ ''.'' @ padZero 3 (ms mod 1000) @ ''Z'')"

section \<open>The key-value table (kv_store.ts)\<close>

text \<open>
  The table has a primary key \<open>key\<close> and a JSON column \<open>value\<close>; it is the list of its
  rows. Row order is the database's; here a replaced row keeps its place and a new row
  goes last. The database is taken to answer every request: the \<open>throw\<close> on a storage
  error is not a branch of the model.
\<close>

type_synonym kvstore = "(string \<times> doc) list"

definition kv_get :: "kvstore \<Rightarrow> string \<Rightarrow> doc option" where
  "kv_get store key = map_of store key"

fun upsert :: "kvstore \<Rightarrow> string \<Rightarrow> doc \<Rightarrow> kvstore" where
  "upsert [] key v = [(key, v)]"
| "upsert ((k, w) # rows) key v =
     (if k = key then (key, v) # rows else (k, w) # upsert rows key v)"

text \<open>\<open>sampleEmployeePattern = /^EMP0\d+$/i\<close>\<close>

definition lowerChar :: "char \<Rightarrow> char" where
  "lowerChar c = (let n = (of_char c :: nat) in if 65 \<le> n \<and> n \<le> 90 then char_of (n + 32) else c)"

definition sampleEmployeePattern :: "string \<Rightarrow> bool" where
  "sampleEmployeePattern s =
     (map lowerChar (take 4 s) = ''emp0'' \<and> drop 4 s \<noteq> [] \<and> list_all (isRadixDigit 10) (drop 4 s))"

definition sampleDeviceIds :: "string list" where
  "sampleDeviceIds = [''HP-001'', ''CBS-002'', ''CNC-003'', ''COMP-004'', ''WS-005'']"

text \<open>
  The guard of \<open>set\<close> under \<open>PREVENT_AUTO_SEED\<close>:
  \<^verbatim>\<open>
  if (key.startsWith('user:')) {
    const emp = value?.employeeId || key.replace(/^user:/, '');
    if (emp && sampleEmployeePattern.test(emp)) return;
  }
  if (key.startsWith('device:')) {
    const ident = value?.identificationNumber;
    if (ident && sampleDeviceIds.has(ident)) return;
  }
  \<close>
\<close>

definition sampleUserRow :: "string \<Rightarrow> doc \<Rightarrow> bool" where
  "sampleUserRow key v =
     (startsWith key ''user:'' \<and>
      (let emp = (case v ''employeeId'' of
                    Some (JStr s) \<Rightarrow> if s \<noteq> [] then s else drop 5 key
                  | Some (JNum n) \<Rightarrow> if n \<noteq> 0 then showInt n else drop 5 key
                  | Some (JArr xs) \<Rightarrow> joinComma xs
                  | None \<Rightarrow> drop 5 key)
       in emp \<noteq> [] \<and> sampleEmployeePattern emp))"

definition sampleDeviceRow :: "string \<Rightarrow> doc \<Rightarrow> bool" where
  "sampleDeviceRow key v =
     (startsWith key ''device:'' \<and>
      (case v ''identificationNumber'' of
         Some (JStr ident) \<Rightarrow> ident \<noteq> [] \<and> ident \<in> set sampleDeviceIds
       | _ \<Rightarrow> False))"

definition kv_set :: "bool \<Rightarrow> kvstore \<Rightarrow> string \<Rightarrow> doc \<Rightarrow> kvstore" where
  "kv_set PREVENT_AUTO_SEED store key v =
     (if PREVENT_AUTO_SEED \<and> sampleUserRow key v then store
      else if PREVENT_AUTO_SEED \<and> sampleDeviceRow key v then store
      else upsert store key v)"

definition kv_del :: "kvstore \<Rightarrow> string \<Rightarrow> kvstore" where
  "kv_del store key = filter (\<lambda>(k, v). k \<noteq> key) store"

text \<open>
  \<open>getByPrefix\<close> selects with \<open>LIKE prefix%\<close>. The prefix the modelled handlers pass,
  \<open>check:\<close>, has none of the wildcards of \<open>LIKE\<close>, so the selection is by leading
  substring.
\<close>

definition getByPrefix :: "kvstore \<Rightarrow> string \<Rightarrow> doc list" where
  "getByPrefix store prefix = map snd (filter (\<lambda>(k, v). startsWith k prefix) store)"

section \<open>The handlers of the edge function\<close>

text \<open>
  A handler takes the table and returns its response and the table it leaves. The
  parameters are \<open>PREVENT_AUTO_SEED\<close> (the environment flag read by \<open>set\<close>), the
  offset \<open>tz\<close> of the process, the clock \<open>now\<close> and the parsed request. The clock is
  read once for a request: the instants that one request reads with \<open>new Date()\<close> are
  taken to be equal. A body field that the request leaves out is \<open>None\<close>.
\<close>

subsection \<open>POST /weekly-plans\<close>

definition planRecord ::
    "string \<Rightarrow> jsval option \<Rightarrow> jsval option \<Rightarrow> string list \<Rightarrow> jsval option \<Rightarrow> string \<Rightarrow> doc" where
  "planRecord planId week year deviceIds assignedBy createdAt =
     (Map.empty(''id'' \<mapsto> JStr planId, ''deviceIds'' \<mapsto> JArr deviceIds,
                ''createdAt'' \<mapsto> JStr createdAt, ''status'' \<mapsto> JStr ''planned''))
       (''week'' := week, ''year'' := year, ''assignedBy'' := assignedBy)"

definition checkRecord ::
    "string \<Rightarrow> jsval option \<Rightarrow> jsval option \<Rightarrow> jsval option \<Rightarrow> string \<Rightarrow> jsval option \<Rightarrow> doc" where
  "checkRecord checkId deviceId week year assignedAt assignedBy =
     (Map.empty(''id'' \<mapsto> JStr checkId, ''status'' \<mapsto> JStr ''pending'',
                ''assignedAt'' \<mapsto> JStr assignedAt))
       (''deviceId'' := deviceId, ''week'' := week, ''year'' := year,
        ''assignedBy'' := assignedBy)"

text \<open>
  The loop \<open>for (const deviceId of deviceIds)\<close>:
  \<^verbatim>\<open>
  const checkId = `check:${year}:${week}:${deviceId}`;
  const check = { id: checkId, deviceId, week, year, status: 'pending',
                  assignedAt: new Date().toISOString(), assignedBy };
  await kv.set(checkId, check);
  \<close>
\<close>

fun createChecks ::
    "bool \<Rightarrow> int \<Rightarrow> jsval option \<Rightarrow> jsval option \<Rightarrow> jsval option \<Rightarrow> string list
       \<Rightarrow> kvstore \<Rightarrow> kvstore" where
  "createChecks P now week year assignedBy [] store = store"
| "createChecks P now week year assignedBy (deviceId # rest) store =
     (let checkId = ''check:'' @ toStr year @ '':'' @ toStr week @ '':'' @ deviceId;
          check = checkRecord checkId (Some (JStr deviceId)) week year
                    (toISOString now) assignedBy
      in createChecks P now week year assignedBy rest (kv_set P store checkId check))"

definition post_weekly_plans ::
    "bool \<Rightarrow> int \<Rightarrow> jsval option \<Rightarrow> jsval option \<Rightarrow> string list \<Rightarrow> jsval option
       \<Rightarrow> kvstore \<Rightarrow> doc \<times> kvstore" where
  "post_weekly_plans P now week year deviceIds assignedBy store =
     (let planId = ''plan:'' @ toStr year @ '':'' @ toStr week;
          plan = planRecord planId week year deviceIds assignedBy (toISOString now);
          store = kv_set P store planId plan
      in (plan, createChecks P now week year assignedBy deviceIds store))"

subsection \<open>PUT /checks/:checkId/complete\<close>

datatype scheduled =
  Scheduled (sch_checkId: string) (sch_week: int) (sch_year: int) (sch_scheduledFor: string)

datatype response =
    Success doc scheduled
  | NotFound string
  | ServerError

text \<open>\<open>comment || ''\<close>\<close>

definition orEmpty :: "jsval option \<Rightarrow> jsval" where
  "orEmpty v = (case v of
                  None \<Rightarrow> JStr []
                | Some (JNum n) \<Rightarrow> if n = 0 then JStr [] else JNum n
                | Some w \<Rightarrow> w)"

text \<open>
  The handler, in the order of the source: read the check (404 when absent), read the
  device the check names (404 when absent), write the completed check, write the device,
  compute the next date, write the next check, answer.

  Two ways out of the source's \<open>try\<close> block answer 500 after writes have been made. An
  \<open>upsert\<close> whose key is \<open>undefined\<close> has no key column and is refused by the table; that
  happens when the check has no \<open>deviceId\<close> and a row with the key \<open>undefined\<close> was
  found for it. A \<open>plannedFrequency\<close> that is not a number, or one that takes the next
  date out of the range of a \<open>Date\<close>, makes the next date invalid: its year and week
  are \<open>NaN\<close>, the next check is written under them, and \<open>toISOString\<close> of the invalid
  date throws while the answer is built.

  The week number of a valid next date is computed as for a date of the clock. (In the
  first year of the range, 271822 BC, January 4 is no date and the source's week number
  is \<open>NaN\<close>; the properties of this handler are stated for next dates from 1970 on.)
\<close>

definition put_checks_complete ::
    "bool \<Rightarrow> int \<Rightarrow> int \<Rightarrow> string \<Rightarrow> jsval option \<Rightarrow> jsval option \<Rightarrow> kvstore
       \<Rightarrow> response \<times> kvstore" where
  "put_checks_complete P tz now checkId completedBy comment store =
     (case kv_get store checkId of
        None \<Rightarrow> (NotFound ''Check not found'', store)
      | Some check \<Rightarrow>
          (case kv_get store (toStr (check ''deviceId'')) of
             None \<Rightarrow> (NotFound ''Device not found'', store)
           | Some device \<Rightarrow>
               (let completedAt = toISOString now;
                    updatedCheck = check(''status'' \<mapsto> JStr ''completed'',
                                         ''completedBy'' := completedBy,
                                         ''completedAt'' \<mapsto> JStr completedAt,
                                         ''comment'' \<mapsto> orEmpty comment);
                    store = kv_set P store checkId updatedCheck;
                    updatedDevice = device(''lastCheckedAt'' \<mapsto> JStr completedAt,
                                           ''lastCheckedBy'' := completedBy)
                in if check ''deviceId'' = None then (ServerError, store)
                   else
                     (let store = kv_set P store (toStr (check ''deviceId'')) updatedDevice;
                          currentDate = now;
                          nextCheckDate =
                            (case toNumber (device ''plannedFrequency'') of
                               None \<Rightarrow> None
                             | Some plannedFrequency \<Rightarrow>
                                 TimeClip (setDate tz currentDate
                                             (getDate tz currentDate + plannedFrequency * 7)))
                      in case nextCheckDate of
                           None \<Rightarrow>
                             (let nextCheckId = ''check:NaN:NaN:'' @ toStr (check ''deviceId'');
                                  nextCheck = checkRecord nextCheckId (check ''deviceId'')
                                                (Some (JStr ''NaN'')) (Some (JStr ''NaN''))
                                                completedAt (Some (JStr ''system''))
                              in (ServerError, kv_set P store nextCheckId nextCheck))
                         | Some nextCheckDate \<Rightarrow>
                             (let nextYear = getFullYear tz nextCheckDate;
                                  nextWeek = getWeekNumber tz nextCheckDate;
                                  nextCheckId = ''check:'' @ showInt nextYear @ '':''
                                                  @ showInt nextWeek @ '':''
                                                  @ toStr (check ''deviceId'');
                                  nextCheck = checkRecord nextCheckId (check ''deviceId'')
                                                (Some (JStr (showInt nextWeek)))
                                                (Some (JStr (showInt nextYear)))
                                                completedAt (Some (JStr ''system''));
                                  store = kv_set P store nextCheckId nextCheck
                              in (Success updatedCheck
                                    (Scheduled nextCheckId nextWeek nextYear
                                       (toISOString nextCheckDate)),
                                  store))))))"

subsection \<open>GET /delayed-checks\<close>

text \<open>
  \<^verbatim>\<open>
  const delayedChecks = allChecks.filter(check => {
    if (check.status !== 'pending') return false;
    const checkYear = parseInt(check.year);
    const checkWeek = parseInt(check.week);
    return checkYear < currentYear ||
      (checkYear === currentYear && checkWeek < currentWeek);
  });
  \<close>
\<close>

definition isDelayed :: "int \<Rightarrow> int \<Rightarrow> doc \<Rightarrow> bool" where
  "isDelayed currentYear currentWeek check =
     (if check ''status'' \<noteq> Some (JStr ''pending'') then False
      else (let checkYear = parseInt (check ''year'');
                checkWeek = parseInt (check ''week'')
            in jsLess checkYear (Some currentYear) \<or>
               (jsEq checkYear (Some currentYear) \<and> jsLess checkWeek (Some currentWeek))))"

definition get_delayed_checks :: "int \<Rightarrow> int \<Rightarrow> kvstore \<Rightarrow> doc list" where
  "get_delayed_checks tz now store =
     (let allChecks = getByPrefix store ''check:'';
          currentDate = now;
          currentYear = getFullYear tz currentDate;
          currentWeek = getWeekNumber tz currentDate
      in filter (isDelayed currentYear currentWeek) allChecks)"

section \<open>The client's classification of a delayed check (DelayedDevices.tsx)\<close>

text \<open>
  \<^verbatim>\<open>
  const weeksOverdue = (currentYear - checkYear) * 52 + (currentWeek - checkWeek);
  return weeksOverdue * 7;
  \<close>
  The result is \<open>NaN\<close> (\<open>None\<close>) when \<open>parseInt\<close> reads no number from the check.
\<close>

definition getDaysOverdue :: "int \<Rightarrow> int \<Rightarrow> doc \<Rightarrow> int option" where
  "getDaysOverdue tz now check =
     (let checkYear = parseInt (check ''year'');
          checkWeek = parseInt (check ''week'');
          currentDate = now;
          currentYear = getFullYear tz currentDate;
          currentWeek = getWeekNumberClient tz currentDate
      in case (checkYear, checkWeek) of
           (Some cy, Some cw) \<Rightarrow>
             (let weeksOverdue = (currentYear - cy) * 52 + (currentWeek - cw)
              in Some (weeksOverdue * 7))
         | _ \<Rightarrow> None)"

text \<open>The category of \<open>groupedChecks\<close>: \<open>recent\<close> unless a comparison moves it.\<close>

definition category :: "int option \<Rightarrow> string" where
  "category daysOverdue =
     (if jsLess (Some 14) daysOverdue then ''critical''
      else if jsLess (Some 7) daysOverdue then ''moderate''
      else ''recent'')"

text \<open>The label of \<open>getSeverityBadge\<close>; \<open>a <= b\<close> is false when an operand is \<open>NaN\<close>.\<close>

definition jsLessEq :: "int option \<Rightarrow> int option \<Rightarrow> bool" where
  "jsLessEq a b = (case (a, b) of (Some x, Some y) \<Rightarrow> x \<le> y | _ \<Rightarrow> False)"

definition getSeverityBadge :: "int option \<Rightarrow> string" where
  "getSeverityBadge daysOverdue =
     (if jsLessEq daysOverdue (Some 7) then ''Recently Overdue''
      else if jsLessEq daysOverdue (Some 14) then ''Moderately Overdue''
      else ''Critically Overdue'')"

text \<open>
  The client's \<open>getWeekDateRange(year, week)\<close>, which prints the days of a check's
  week from the check's stored year and week ("Originally scheduled for Week ..."):
  \<^verbatim>\<open>
  const simple = new Date(year, 0, 1 + (week - 1) * 7);
  const dow = simple.getDay();
  const ISOweekStart = simple;
  if (dow <= 4)
    ISOweekStart.setDate(simple.getDate() - simple.getDay() + 1);
  else
    ISOweekStart.setDate(simple.getDate() + 8 - simple.getDay());
  const weekEnd = new Date(ISOweekStart);
  weekEnd.setDate(ISOweekStart.getDate() + 6);
  \<close>
  It reads the pair as an ISO week of that year. The model returns the two dates; the
  source prints them with \<open>toLocaleDateString\<close>.
\<close>

definition getWeekDateRange :: "int \<Rightarrow> int \<Rightarrow> int \<Rightarrow> int \<times> int" where
  "getWeekDateRange tz year week =
     (let simple = newDate tz year 0 (1 + (week - 1) * 7);
          dow = getDay tz simple;
          ISOweekStart =
            (if dow \<le> 4 then setDate tz simple (getDate tz simple - getDay tz simple + 1)
             else setDate tz simple (getDate tz simple + 8 - getDay tz simple));
          weekEnd = setDate tz ISOweekStart (getDate tz ISOweekStart + 6)
      in (ISOweekStart, weekEnd))"

section \<open>Notions the properties are stated with\<close>

text \<open>
  The (year, week, deviceId) triple of a check as the key template renders it, and the
  key \<open>check:<year>:<week>:<deviceId>\<close> that the triple names.
\<close>

definition tripleOf :: "doc \<Rightarrow> string \<times> string \<times> string" where
  "tripleOf c = (toStr (c ''year''), toStr (c ''week''), toStr (c ''deviceId''))"

definition checkKey :: "string \<times> string \<times> string \<Rightarrow> string" where
  "checkKey t = ''check:'' @ fst t @ '':'' @ fst (snd t) @ '':'' @ snd (snd t)"

text \<open>The rows of the table that are checks with a given triple.\<close>

definition checksAt :: "kvstore \<Rightarrow> string \<times> string \<times> string \<Rightarrow> (string \<times> doc) list" where
  "checksAt store t = filter (\<lambda>(k, c). startsWith k ''check:'' \<and> tripleOf c = t) store"

text \<open>
  The values the completion handler computes on its way, under the names of its local
  variables: the records it writes for the completed check and for the device, the next
  date for a numeric \<open>plannedFrequency\<close> (\<open>None\<close> when it is out of the range of a
  \<open>Date\<close>), and the key and the record of the next check for a valid next date.
\<close>

definition updatedCheck :: "int \<Rightarrow> jsval option \<Rightarrow> jsval option \<Rightarrow> doc \<Rightarrow> doc" where
  "updatedCheck now completedBy comment check =
     check(''status'' \<mapsto> JStr ''completed'', ''completedBy'' := completedBy,
           ''completedAt'' \<mapsto> JStr (toISOString now), ''comment'' \<mapsto> orEmpty comment)"

definition updatedDevice :: "int \<Rightarrow> jsval option \<Rightarrow> doc \<Rightarrow> doc" where
  "updatedDevice now completedBy device =
     device(''lastCheckedAt'' \<mapsto> JStr (toISOString now), ''lastCheckedBy'' := completedBy)"

definition nextCheckDate :: "int \<Rightarrow> int \<Rightarrow> int \<Rightarrow> int option" where
  "nextCheckDate tz now plannedFrequency =
     TimeClip (setDate tz now (getDate tz now + plannedFrequency * 7))"

definition nextCheckId :: "int \<Rightarrow> int \<Rightarrow> jsval option \<Rightarrow> string" where
  "nextCheckId tz nextDate deviceId =
     ''check:'' @ showInt (getFullYear tz nextDate) @ '':''
       @ showInt (getWeekNumber tz nextDate) @ '':'' @ toStr deviceId"

definition nextCheck :: "int \<Rightarrow> int \<Rightarrow> int \<Rightarrow> jsval option \<Rightarrow> doc" where
  "nextCheck tz now nextDate deviceId =
     checkRecord (nextCheckId tz nextDate deviceId) deviceId
       (Some (JStr (showInt (getWeekNumber tz nextDate))))
       (Some (JStr (showInt (getFullYear tz nextDate))))
       (toISOString now) (Some (JStr ''system''))"

text \<open>
  The table is well keyed when no key occurs twice (the primary key) and every row
  under a \<open>check:\<close> key is stored under the key its own triple names.
\<close>

definition keyedRow :: "string \<times> doc \<Rightarrow> bool" where
  "keyedRow r = (startsWith (fst r) ''check:'' \<longrightarrow> fst r = checkKey (tripleOf (snd r)))"

definition wellKeyed :: "kvstore \<Rightarrow> bool" where
  "wellKeyed store = (distinct (map fst store) \<and> list_all keyedRow store)"

text \<open>
  The tables the modelled operations produce from the empty table: plans, completions,
  writes under keys outside the \<open>check:\<close> namespace (devices, plans, documents,
  users) and deletions.
\<close>

inductive reachable :: "bool \<Rightarrow> int \<Rightarrow> kvstore \<Rightarrow> bool" for P :: bool and tz :: int where
  initial: "reachable P tz []"
| planned: "reachable P tz store \<Longrightarrow>
     reachable P tz (snd (post_weekly_plans P now week year deviceIds assignedBy store))"
| completed: "reachable P tz store \<Longrightarrow>
     reachable P tz (snd (put_checks_complete P tz now checkId completedBy comment store))"
| written: "reachable P tz store \<Longrightarrow> \<not> startsWith key ''check:'' \<Longrightarrow>
     reachable P tz (kv_set P store key v)"
| deleted: "reachable P tz store \<Longrightarrow> reachable P tz (kv_del store key)"

section \<open>Example data\<close>

text \<open>
  A device checked every week, and checks of it. Instants: 2024-12-23T12:00Z is
  1734955200000, a Monday in week 52 of 2024; 2025-03-10T09:00Z is 1741597200000, the
  Monday of week 11 of 2025; 2025-03-17T09:00Z is 1742202000000, the Monday of week 12.
\<close>

definition exDevice :: doc where
  "exDevice = [''id'' \<mapsto> JStr ''device:1'', ''name'' \<mapsto> JStr ''Hydraulic press'',
               ''identificationNumber'' \<mapsto> JStr ''HP-001'', ''plannedFrequency'' \<mapsto> JNum 1,
               ''status'' \<mapsto> JStr ''active'']"

definition exCheck :: "string \<Rightarrow> string \<Rightarrow> string \<Rightarrow> doc" where
  "exCheck y w st =
     [''id'' \<mapsto> JStr (''check:'' @ y @ '':'' @ w @ '':device:1''),
      ''deviceId'' \<mapsto> JStr ''device:1'', ''week'' \<mapsto> JStr w, ''year'' \<mapsto> JStr y,
      ''status'' \<mapsto> JStr st, ''assignedAt'' \<mapsto> JStr ''2024-12-01T08:00:00.000Z'',
      ''assignedBy'' \<mapsto> JStr ''E9'']"

definition exStore :: "string \<Rightarrow> doc \<Rightarrow> kvstore" where
  "exStore k c = [(''device:1'', exDevice), (k, c)]"

section \<open>The calendar\<close>

lemma div_bounds:
  fixes x k :: int
  assumes "0 < k"
  shows "k * (x div k) \<le> x" "x < k * (x div k) + k"
  using mult_div_mod_eq [of k x] pos_mod_sign [OF assms, of x] pos_mod_bound [OF assms, of x]
  by linarith+

text \<open>The first day of a year lies within two days of the mean-year estimate.\<close>

lemma DayFromYear_approx:
  "146097 * y - 287811596 \<le> 400 * DayFromYear y"
  "400 * DayFromYear y \<le> 146097 * y - 287810501"
proof -
  define a where "a = (y - 1969) div 4"
  define b where "b = (y - 1901) div 100"
  define c where "c = (y - 1601) div 400"
  have a: "4 * a \<le> y - 1969" "y - 1969 < 4 * a + 4"
    unfolding a_def by (rule div_bounds; simp)+
  have b: "100 * b \<le> y - 1901" "y - 1901 < 100 * b + 100"
    unfolding b_def by (rule div_bounds; simp)+
  have c: "400 * c \<le> y - 1601" "y - 1601 < 400 * c + 400"
    unfolding c_def by (rule div_bounds; simp)+
  have d: "400 * DayFromYear y = 146000 * y - 287620000 + 400 * a - 400 * b + 400 * c"
    by (simp add: DayFromYear_def a_def b_def c_def)
  show "146097 * y - 287811596 \<le> 400 * DayFromYear y"
    unfolding d using a b c by linarith
  show "400 * DayFromYear y \<le> 146097 * y - 287810501"
    unfolding d using a b c by linarith
qed

text \<open>
  \<open>YearFromDay\<close> is the year whose days include the given day, the largest year that
  starts on or before it.
\<close>

lemma YearFromDay_bounds:
  "DayFromYear (YearFromDay d) \<le> d \<and> d < DayFromYear (YearFromDay d + 1)"
proof -
  define y0 where "y0 = 1970 + (400 * d) div 146097"
  define L where "L = DayFromYear (y0 - 1)"
  define H where "H = DayFromYear (y0 + 1 + 1)"
  have u: "146097 * (y0 - 1970) \<le> 400 * d" "400 * d < 146097 * (y0 - 1970) + 146097"
    unfolding y0_def by (simp_all add: div_bounds)
  have u': "146097 * y0 - 287811090 \<le> 400 * d" "400 * d < 146097 * y0 - 287664993"
    using u by simp_all
  have "400 * L \<le> 146097 * y0 - 287956598"
    using DayFromYear_approx(2) [of "y0 - 1"] by (simp add: L_def algebra_simps)
  then have lo: "L \<le> d" using u' by linarith
  have "146097 * y0 - 287519402 \<le> 400 * H"
    using DayFromYear_approx(1) [of "y0 + 1 + 1"] by (simp add: H_def algebra_simps)
  then have hi: "d < H" using u' by linarith
  show ?thesis
    unfolding YearFromDay_def Let_def y0_def [symmetric]
    using lo hi by (simp add: L_def H_def)
qed

lemma DayFromYear_less: "DayFromYear y < DayFromYear (y + 1)"
proof -
  define a where "a = (y - 1969) div 4"
  define b where "b = (y - 1901) div 100"
  define c where "c = (y - 1601) div 400"
  define a' where "a' = (y + 1 - 1969) div 4"
  define b' where "b' = (y + 1 - 1901) div 100"
  define c' where "c' = (y + 1 - 1601) div 400"
  have a: "4 * a \<le> y - 1969" "y - 1969 < 4 * a + 4"
    unfolding a_def by (rule div_bounds; simp)+
  have b: "100 * b \<le> y - 1901" "y - 1901 < 100 * b + 100"
    unfolding b_def by (rule div_bounds; simp)+
  have c: "400 * c \<le> y - 1601" "y - 1601 < 400 * c + 400"
    unfolding c_def by (rule div_bounds; simp)+
  have a': "4 * a' \<le> y + 1 - 1969" "y + 1 - 1969 < 4 * a' + 4"
    unfolding a'_def by (rule div_bounds; simp)+
  have b': "100 * b' \<le> y + 1 - 1901" "y + 1 - 1901 < 100 * b' + 100"
    unfolding b'_def by (rule div_bounds; simp)+
  have c': "400 * c' \<le> y + 1 - 1601" "y + 1 - 1601 < 400 * c' + 400"
    unfolding c'_def by (rule div_bounds; simp)+
  have m: "a \<le> a'" "b' \<le> b + 1" "c \<le> c'" using a b c a' b' c' by linarith+
  have "DayFromYear (y + 1) - DayFromYear y = 365 + (a' - a) - (b' - b) + (c' - c)"
    by (simp add: DayFromYear_def a_def b_def c_def a'_def b'_def c'_def)
  then show ?thesis using m by linarith
qed

lemma DayFromYear_mono: "y \<le> y' \<Longrightarrow> DayFromYear y \<le> DayFromYear y'"
proof (induction y' rule: int_ge_induct)
  case base
  show ?case by simp
next
  case (step i)
  then show ?case using DayFromYear_less [of i] by linarith
qed

lemma YearFromDay_largest: "DayFromYear y \<le> d \<Longrightarrow> y \<le> YearFromDay d"
proof (rule ccontr)
  assume le: "DayFromYear y \<le> d" and "\<not> y \<le> YearFromDay d"
  then have "YearFromDay d + 1 \<le> y" by simp
  then have "DayFromYear (YearFromDay d + 1) \<le> DayFromYear y" by (rule DayFromYear_mono)
  then show False using le YearFromDay_bounds [of d] by linarith
qed

lemma MonthFromDay_range: "0 \<le> MonthFromDay d \<and> MonthFromDay d \<le> 11"
  by (simp add: MonthFromDay_def Let_def)

text \<open>
  A day's own year, month and day of month give the day back, and a day of month moved
  by \<open>k\<close> moves the day by \<open>k\<close>: what \<open>setDate(getDate() + k)\<close> relies on.
\<close>

lemma MakeDay_roundtrip:
  "MakeDay (YearFromDay d) (MonthFromDay d) (DateFromDay d + k) = d + k"
proof -
  have m: "MonthFromDay d div 12 = 0" "MonthFromDay d mod 12 = MonthFromDay d"
    using MonthFromDay_range [of d] by simp_all
  show ?thesis
    by (simp add: MakeDay_def m DateFromDay_def DayWithinYear_def)
qed

lemma MakeDay_January: "MakeDay y 0 dt = DayFromYear y + dt - 1"
  by (simp add: MakeDay_def monthStart_def)

lemma Day_midnight: "Day (D * msPerDay) = D" "Day (D * msPerDay - tz + tz) = D"
  by (simp_all add: Day_def msPerDay_def)

lemma TimeWithinDay_midnight:
  "TimeWithinDay (D * msPerDay) = 0" "TimeWithinDay (D * msPerDay - tz + tz) = 0"
  by (simp_all add: TimeWithinDay_def msPerDay_def)

lemma setDate_shift:
  "setDate tz (D * msPerDay - tz) (DateFromDay D + k) = (D + k) * msPerDay - tz"
  by (simp add: setDate_def Let_def Day_midnight TimeWithinDay_midnight MakeDay_roundtrip)

lemma setDate_getDate_plus:
  "setDate tz t (getDate tz t + k) = t + k * msPerDay"
proof -
  have "(Day (t + tz) + k) * msPerDay + TimeWithinDay (t + tz) = t + tz + k * msPerDay"
    by (simp add: Day_def TimeWithinDay_def algebra_simps)
  then show ?thesis
    by (simp add: setDate_def getDate_def Let_def MakeDay_roundtrip)
qed

section \<open>The two week-number functions in closed form\<close>

lemma thursdayOf_mod7: "thursdayOf D mod 7 = 0"
  unfolding thursdayOf_def WeekDay_def by presburger

lemma MathRound_of_int: "MathRound (of_int n) = n"
  unfolding MathRound_def by (simp add: floor_eq_iff)

lemma server_tempDate:
  "setDate tz (setHours tz date 0 0 0 0)
     (getDate tz (setHours tz date 0 0 0 0) + 3
        - (getDay tz (setHours tz date 0 0 0 0) + 6) mod 7)
   = thursdayOf (Day (date + tz)) * msPerDay - tz"
proof -
  have h: "setHours tz date 0 0 0 0 = Day (date + tz) * msPerDay - tz"
    by (simp add: setHours_def)
  show ?thesis
    unfolding h getDate_def getDay_def Day_midnight thursdayOf_def
    using setDate_shift [of tz "Day (date + tz)" "3 - (WeekDay (Day (date + tz)) + 6) mod 7"]
    by (simp add: algebra_simps)
qed

lemma getWeekNumber_closed:
  "getWeekNumber tz date =
     (let T = thursdayOf (Day (date + tz));
          J = DayFromYear (fullYearArg (YearFromDay T))
      in 1 + T div 7 - (J + 6) div 7)"
proof -
  define T where "T = thursdayOf (Day (date + tz))"
  define J where "J = DayFromYear (fullYearArg (YearFromDay T))"
  define n where "n = T div 7 - (J + 6) div 7"
  have T7: "T mod 7 = 0" unfolding T_def by (rule thursdayOf_mod7)
  have week1: "newDate tz (getFullYear tz (T * msPerDay - tz)) 0 4 = (J + 3) * msPerDay - tz"
    by (simp add: newDate_def getFullYear_def Day_midnight MakeDay_January J_def)
  have wd: "getDay tz ((J + 3) * msPerDay - tz) = WeekDay (J + 3)"
    by (simp add: getDay_def Day_midnight)
  have "T * msPerDay - tz - ((J + 3) * msPerDay - tz) = (T - J - 3) * 86400000"
    by (simp add: msPerDay_def algebra_simps)
  then have diff:
    "(of_int (T * msPerDay - tz - ((J + 3) * msPerDay - tz)) :: rat) / 86400000
       = of_int (T - J - 3)"
    by simp
  have sum7: "T - J - 3 - 3 + (WeekDay (J + 3) + 6) mod 7 = 7 * n"
    unfolding n_def WeekDay_def using T7 by presburger
  have "(of_int (T - J - 3) - 3 + of_int ((WeekDay (J + 3) + 6) mod 7) :: rat) = of_int (7 * n)"
    using sum7 by (metis of_int_add of_int_diff of_int_numeral)
  then have q: "(of_int (T - J - 3) - 3 + of_int ((WeekDay (J + 3) + 6) mod 7) :: rat) / 7 = of_int n"
    by simp
  have "getWeekNumber tz date = 1 + n"
    unfolding getWeekNumber_def Let_def server_tempDate T_def [symmetric] week1 wd diff q
    by (simp add: MathRound_of_int)
  then show ?thesis by (simp add: Let_def T_def J_def n_def)
qed

lemma MathCeil_week:
  "MathCeil ((of_int (a * 86400000) / 86400000 + 1) / 7) = - ((- (a + 1)) div 7)"
proof -
  have "((of_int (a * 86400000) :: rat) / 86400000 + 1) / 7 = of_int (a + 1) / of_int 7"
    by simp
  then show ?thesis
    unfolding MathCeil_def ceiling_def
    by (metis floor_divide_of_int_eq minus_divide_left of_int_minus)
qed

lemma mod7_pred:
  "0 \<le> a \<Longrightarrow> a < 7 \<Longrightarrow> (a + 6) mod 7 = (if a = 0 then 6 else a - (1::int))"
  by presburger

lemma client_thursday:
  "D + 4 - (if WeekDay D = 0 then 7 else WeekDay D) = thursdayOf D"
proof -
  have "0 \<le> WeekDay D" "WeekDay D < 7" by (simp_all add: WeekDay_def)
  then show ?thesis
    unfolding thursdayOf_def by (simp add: mod7_pred)
qed

lemma getWeekNumberClient_closed:
  assumes "\<not> (0 \<le> getFullYear tz date \<and> getFullYear tz date \<le> 99)"
  shows "getWeekNumberClient tz date =
     (let T = thursdayOf (Day (date + tz));
          J = DayFromYear (fullYearArg (YearFromDay T))
      in - ((- (T - J + 1)) div 7))"
proof -
  define D where "D = Day (date + tz)"
  define T where "T = thursdayOf D"
  define J where "J = DayFromYear (fullYearArg (YearFromDay T))"
  have fy: "fullYearArg (YearFromDay D) = YearFromDay D"
    using assms by (simp add: fullYearArg_def getFullYear_def D_def)
  have d0: "DateUTC (getFullYear tz date) (getMonth tz date) (getDate tz date) = D * msPerDay"
    using MakeDay_roundtrip [of D 0]
    by (simp add: DateUTC_def getFullYear_def getMonth_def getDate_def D_def [symmetric] fy)
  have wd: "getDay 0 (D * msPerDay) = WeekDay D"
    by (simp add: getDay_def Day_midnight)
  have gd: "getDate 0 (D * msPerDay) = DateFromDay D"
    by (simp add: getDate_def Day_midnight)
  have sd: "setDate 0 (D * msPerDay)
              (DateFromDay D + 4 - (if WeekDay D = 0 then 7 else WeekDay D))
            = T * msPerDay"
    using setDate_shift [of 0 D "4 - (if WeekDay D = 0 then 7 else WeekDay D)"]
          client_thursday [of D]
    by (simp add: T_def algebra_simps)
  have ys: "DateUTC (getFullYear 0 (T * msPerDay)) 0 1 = J * msPerDay"
    by (simp add: DateUTC_def getFullYear_def Day_midnight MakeDay_January J_def)
  have df: "T * msPerDay - J * msPerDay = (T - J) * 86400000"
    by (simp add: msPerDay_def algebra_simps)
  have "getWeekNumberClient tz date = - ((- (T - J + 1)) div 7)"
    unfolding getWeekNumberClient_def Let_def d0 wd gd sd ys df
    by (rule MathCeil_week)
  then show ?thesis
    by (simp add: Let_def T_def J_def D_def)
qed

lemma week_formulas_agree:
  assumes "T mod 7 = 0"
  shows "1 + T div 7 - (J + 6) div 7 = - ((- (T - J + 1)) div (7::int))"
proof -
  obtain k where T: "T = 7 * k" using assms by (metis mod_eq_0_iff_dvd dvdE)
  have a: "(J + 6) div 7 = (J - 1) div 7 + 1"
    using div_add_self2 [of 7 "J - 1"] by simp
  have "- (T - J + 1) = (J - 1) + (- k) * 7" by (simp add: T)
  then have b: "(- (T - J + 1)) div 7 = (J - 1) div 7 - k"
    using div_mult_self1 [of 7 "J - 1" "- k"] by simp
  show ?thesis by (simp add: a b T)
qed

lemma getWeekNumber_local_day:
  "Day (t + tz) = Day (t' + tz') \<Longrightarrow> getWeekNumber tz t = getWeekNumber tz' t'"
  by (simp add: getWeekNumber_closed)

lemma getWeekNumberClient_local_day:
  "Day (t + tz) = Day (t' + tz') \<Longrightarrow> getWeekNumberClient tz t = getWeekNumberClient tz' t'"
  by (simp add: getWeekNumberClient_def getFullYear_def getMonth_def getDate_def)

lemma getWeekNumber_client_server:
  assumes "\<not> (0 \<le> getFullYear tz date \<and> getFullYear tz date \<le> 99)"
  shows "getWeekNumberClient tz date = getWeekNumber tz date"
  unfolding getWeekNumberClient_closed [OF assms] getWeekNumber_closed Let_def
  by (rule week_formulas_agree [symmetric, OF thursdayOf_mod7])

section \<open>Week numbers and years at the boundaries of a year\<close>

lemma Day_newDate: "Day (newDate tz y m dt + tz) = MakeDay (fullYearArg y) m dt"
  by (simp add: newDate_def Day_midnight)

lemma boundary_pairs:
  "(getFullYear tz (newDate tz 2024 11 30), getWeekNumber tz (newDate tz 2024 11 30)) = (2024, 1)
   \<and> (getFullYear tz (newDate tz 2025 0 1), getWeekNumber tz (newDate tz 2025 0 1)) = (2025, 1)
   \<and> (getFullYear tz (newDate tz 2023 0 1), getWeekNumber tz (newDate tz 2023 0 1)) = (2023, 52)"
  unfolding getFullYear_def getWeekNumber_closed Day_newDate
  by code_simp

lemma boundary_ranges:
  "getWeekDateRange 0 2024 1 = (newDate 0 2024 0 1, newDate 0 2024 0 7)
   \<and> getWeekDateRange 0 2025 1 = (newDate 0 2024 11 30, newDate 0 2025 0 5)
   \<and> getWeekDateRange 0 2023 52 = (newDate 0 2023 11 25, newDate 0 2023 11 31)
   \<and> getWeekDateRange 0 2022 52 = (newDate 0 2022 11 26, newDate 0 2023 0 1)"
  by code_simp

text \<open>
  C3. For the dates 2024-12-30, 2025-01-01 and 2023-01-01 (local midnight, in any
  timezone) \<open>getWeekNumber\<close> returns 1, 1 and 52, the ISO week numbers. The year that
  the handlers pair with the week number is \<open>getFullYear\<close> of the same date, the
  calendar year: 2024, 2025 and 2023. So 2024-12-30 is paired as (2024, 1) and
  2023-01-01 as (2023, 52), where the ISO week-years are 2025 and 2022.

  The client's \<open>getWeekDateRange\<close> reads a stored pair as an ISO week of its year:
  for (2024, 1) it gives 2024-01-01 to 2024-01-07 and for (2023, 52) 2023-12-25 to
  2023-12-31, weeks that do not hold the dates the pairs were formed from; the weeks
  that hold them are those of (2025, 1), 2024-12-30 to 2025-01-05, and of (2022, 52),
  2022-12-26 to 2023-01-01.
\<close>

theorem boundary_dates_year_and_week:
  "((getFullYear tz (newDate tz 2024 11 30), getWeekNumber tz (newDate tz 2024 11 30)) = (2024, 1)
    \<and> (getFullYear tz (newDate tz 2025 0 1), getWeekNumber tz (newDate tz 2025 0 1)) = (2025, 1)
    \<and> (getFullYear tz (newDate tz 2023 0 1), getWeekNumber tz (newDate tz 2023 0 1)) = (2023, 52))
   \<and> (getWeekDateRange 0 2024 1 = (newDate 0 2024 0 1, newDate 0 2024 0 7)
      \<and> getWeekDateRange 0 2025 1 = (newDate 0 2024 11 30, newDate 0 2025 0 5)
      \<and> getWeekDateRange 0 2023 52 = (newDate 0 2023 11 25, newDate 0 2023 11 31)
      \<and> getWeekDateRange 0 2022 52 = (newDate 0 2022 11 26, newDate 0 2023 0 1))"
  by (rule conjI [OF boundary_pairs boundary_ranges])

text \<open>
  C8, as the claim states it, fails: at the instant 2025-01-05T21:00:00Z the server's
  function returns week 1 in a process at UTC and week 2 in a process four hours east
  of UTC, where it is already Monday; the client's function returns 2 there as well.
  The week number depends on the timezone offset, and a server at UTC and a client
  east of it disagree on the same instant.
\<close>

theorem week_number_timezone_counterexample:
  "getWeekNumber 0 1736110800000 = 1
   \<and> getWeekNumber 14400000 1736110800000 = 2
   \<and> getWeekNumberClient 14400000 1736110800000 = 2"
  by code_simp

text \<open>
  C8, amended. The week number is a function of the local calendar day: two instants
  and offsets with the same local day get the same week number from the server's
  function and from the client's, and on one local day the two functions agree. (The
  client's function rebuilds the date with \<open>Date.UTC\<close>, which reads a year from 0 to 99
  as 1900 + y; those years are excluded.)
\<close>

theorem week_number_of_local_day:
  assumes "Day (t + tz) = Day (t' + tz')"
      and "\<not> (0 \<le> getFullYear tz t \<and> getFullYear tz t \<le> 99)"
  shows "getWeekNumber tz t = getWeekNumber tz' t'
         \<and> getWeekNumberClient tz t = getWeekNumberClient tz' t'
         \<and> getWeekNumberClient tz t = getWeekNumber tz t"
  using getWeekNumber_local_day [OF assms(1)] getWeekNumberClient_local_day [OF assms(1)]
        getWeekNumber_client_server [OF assms(2)]
  by simp

text \<open>
  Witness: 2025-01-05T21:00Z seen four hours east of UTC and 2025-01-06T09:00Z seen at
  UTC are the same local day, Monday 2025-01-06.
\<close>

theorem week_number_of_local_day_witness:
  "Day (1736110800000 + 14400000) = Day (1736154000000 + 0)
   \<and> getFullYear 14400000 1736110800000 = 2025
   \<and> getWeekNumber 14400000 1736110800000 = getWeekNumber 0 1736154000000
   \<and> getWeekNumberClient 14400000 1736110800000 = getWeekNumberClient 0 1736154000000
   \<and> getWeekNumberClient 14400000 1736110800000 = getWeekNumber 14400000 1736110800000"
proof -
  have h1: "Day (1736110800000 + 14400000) = Day (1736154000000 + 0)"
    by code_simp
  have y: "getFullYear 14400000 1736110800000 = 2025"
    by code_simp
  have h2: "\<not> (0 \<le> getFullYear 14400000 1736110800000
              \<and> getFullYear 14400000 1736110800000 \<le> 99)"
    unfolding y by simp
  show ?thesis
    using week_number_of_local_day [OF h1 h2] h1 y by blast
qed

section \<open>Completion across the end of a year\<close>

text \<open>
  C1. The code at the failing input. The check of week 52 of 2024 is completed on
  Monday 2024-12-23 at 12:00 UTC for a device checked every week. The next date is
  2024-12-30, whose ISO week is week 1 of 2025; the handler pairs the week number 1 with
  the calendar year 2024 and writes the successor under \<open>check:2024:1:device:1\<close>,
  pending and assigned by \<open>system\<close>. That week is in the past: the same table, read by
  GET /delayed-checks at the same instant, reports the successor as delayed, and the
  client's \<open>getWeekDateRange\<close> shows it as the week from 2024-01-01 to 2024-01-07,
  which does not hold the date it is scheduled for.
\<close>

theorem completion_before_new_year:
  "(case put_checks_complete False 0 1734955200000 ''check:2024:52:device:1''
           (Some (JStr ''E1'')) None
           (exStore ''check:2024:52:device:1'' (exCheck ''2024'' ''52'' ''pending'')) of
      (Success c sch, s) \<Rightarrow>
        sch = Scheduled ''check:2024:1:device:1'' 1 2024 ''2024-12-30T12:00:00.000Z''
        \<and> map fst s = [''device:1'', ''check:2024:52:device:1'', ''check:2024:1:device:1'']
        \<and> map (\<lambda>d. (d ''id'', d ''status'', d ''assignedBy''))
              (get_delayed_checks 0 1734955200000 s)
            = [(Some (JStr ''check:2024:1:device:1''), Some (JStr ''pending''),
                Some (JStr ''system''))]
        \<and> getWeekDateRange 0 (sch_year sch) (sch_week sch)
            = (newDate 0 2024 0 1, newDate 0 2024 0 7)
    | _ \<Rightarrow> False)"
  by code_simp

section \<open>The key-value table\<close>

lemma startsWith_Nil [simp]: "startsWith s []"
  by (simp add: startsWith_def)

lemma startsWith_Cons:
  "startsWith s (c # p) = (case s of [] \<Rightarrow> False | x # xs \<Rightarrow> x = c \<and> startsWith xs p)"
  by (cases s) (auto simp: startsWith_def)

lemma map_of_upsert:
  "map_of (upsert store key v) k = (if k = key then Some v else map_of store k)"
  by (induction store key v rule: upsert.induct) auto

lemma kv_get_upsert:
  "kv_get (upsert store key v) k = (if k = key then Some v else kv_get store k)"
  by (simp add: kv_get_def map_of_upsert)

lemma kv_get_kv_del: "kv_get (kv_del store key) k = (if k = key then None else kv_get store k)"
  unfolding kv_get_def kv_del_def by (induction store) auto

lemma kv_del_absent: "kv_get store key = None \<Longrightarrow> kv_del store key = store"
  unfolding kv_get_def kv_del_def by (induction store) (auto split: if_splits)

text \<open>
  C9, as the claim states it, fails: with \<open>PREVENT_AUTO_SEED\<close> on, \<open>set\<close> returns
  without writing a row under a \<open>device:\<close> key whose value carries one of the sample
  identification numbers, and \<open>get\<close> of that key then finds nothing.
\<close>

theorem set_get_counterexample:
  "kv_get (kv_set True [] ''device:1'' exDevice) ''device:1'' = None"
  by (simp add: kv_get_def kv_set_def sampleUserRow_def sampleDeviceRow_def
        startsWith_def exDevice_def sampleDeviceIds_def)

text \<open>
  C9, amended. Unless \<open>PREVENT_AUTO_SEED\<close> is on and the row is a sample user or a
  sample device, \<open>set(key, v)\<close> followed by \<open>get(key)\<close> returns \<open>v\<close>, whatever was
  stored under the key before. \<open>del(key)\<close> followed by \<open>get(key)\<close> returns nothing,
  and \<open>del\<close> of an absent key leaves the table as it was.
\<close>

theorem set_get_del_roundtrip:
  assumes "\<not> (P \<and> (sampleUserRow key v \<or> sampleDeviceRow key v))"
  shows "kv_get (kv_set P store key v) key = Some v
         \<and> kv_get (kv_del store key) key = None
         \<and> (kv_get store key = None \<longrightarrow> kv_del store key = store)"
  using assms by (auto simp: kv_set_def kv_get_upsert kv_get_kv_del kv_del_absent)

theorem set_get_del_roundtrip_witness:
  "kv_get (kv_set True (exStore ''device:2'' Map.empty) ''device:2''
             [''identificationNumber'' \<mapsto> JStr ''P-77'']) ''device:2''
     = Some [''identificationNumber'' \<mapsto> JStr ''P-77'']
   \<and> kv_get (kv_del (exStore ''device:2'' Map.empty) ''device:2'') ''device:2'' = None
   \<and> kv_get [(''device:1'', exDevice)] ''device:2'' = None
   \<and> kv_del [(''device:1'', exDevice)] ''device:2'' = [(''device:1'', exDevice)]"
proof -
  have h: "\<not> (True \<and> (sampleUserRow ''device:2'' [''identificationNumber'' \<mapsto> JStr ''P-77'']
                        \<or> sampleDeviceRow ''device:2'' [''identificationNumber'' \<mapsto> JStr ''P-77'']))"
    by (simp add: sampleUserRow_def sampleDeviceRow_def startsWith_def sampleDeviceIds_def)
  have a: "kv_get [(''device:1'', exDevice)] ''device:2'' = None"
    by (simp add: kv_get_def)
  show ?thesis
    using a set_get_del_roundtrip [OF h, of "exStore ''device:2'' Map.empty"]
          set_get_del_roundtrip [OF h, of "[(''device:1'', exDevice)]"]
    by blast
qed

section \<open>Completion of a check that is not there\<close>

text \<open>
  C5. When no row is stored under \<open>checkId\<close>, or the row is there and no row is stored
  under the key its \<open>deviceId\<close> names, the handler answers 404 and returns the table it
  was given: it has written nothing, so the check, the device and the set of checks
  are as before and there is no successor.
\<close>

theorem complete_not_found_writes_nothing:
  assumes "kv_get store checkId = None
           \<or> (\<exists>check. kv_get store checkId = Some check
                        \<and> kv_get store (toStr (check ''deviceId'')) = None)"
  shows "\<exists>msg. put_checks_complete P tz now checkId completedBy comment store
                 = (NotFound msg, store)"
  using assms by (auto simp: put_checks_complete_def)

text \<open>
  Witness: in a table with only the device, the check is absent; in a table with only
  a check, its device is absent.
\<close>

theorem complete_not_found_writes_nothing_witness:
  "kv_get [(''device:1'', exDevice)] ''check:2025:10:device:1'' = None
   \<and> (\<exists>msg. put_checks_complete False 0 1741597200000 ''check:2025:10:device:1''
               (Some (JStr ''E1'')) None [(''device:1'', exDevice)]
             = (NotFound msg, [(''device:1'', exDevice)]))
   \<and> (\<exists>msg. put_checks_complete False 0 1741597200000 ''check:2025:10:device:1''
               (Some (JStr ''E1'')) None
               [(''check:2025:10:device:1'', exCheck ''2025'' ''10'' ''pending'')]
             = (NotFound msg, [(''check:2025:10:device:1'', exCheck ''2025'' ''10'' ''pending'')]))"
proof -
  have h1: "kv_get [(''device:1'', exDevice)] ''check:2025:10:device:1'' = None"
    by (simp add: kv_get_def)
  have h2: "\<exists>check. kv_get [(''check:2025:10:device:1'', exCheck ''2025'' ''10'' ''pending'')]
                       ''check:2025:10:device:1'' = Some check
                   \<and> kv_get [(''check:2025:10:device:1'', exCheck ''2025'' ''10'' ''pending'')]
                        (toStr (check ''deviceId'')) = None"
    by (simp add: kv_get_def exCheck_def toStr_def)
  show ?thesis
    using h1 complete_not_found_writes_nothing [OF disjI1, OF h1]
          complete_not_found_writes_nothing [OF disjI2, OF h2]
    by blast
qed

section \<open>Delayed checks\<close>

text \<open>
  The test of the filter, for a check whose year and week read as numbers: pending, and
  the check's pair strictly before the handler's current pair in the lexicographic
  order. The current pair is the calendar year and the week number of the clock.
\<close>

lemma isDelayed_numeric:
  assumes "parseInt (c ''year'') = Some y" and "parseInt (c ''week'') = Some w"
  shows "isDelayed cy cw c
           = (c ''status'' = Some (JStr ''pending'') \<and> (y < cy \<or> (y = cy \<and> w < cw)))"
  using assms by (simp add: isDelayed_def jsLess_def jsEq_def Let_def)

lemma get_delayed_checks_filter:
  "get_delayed_checks tz now store
     = filter (isDelayed (getFullYear tz now) (getWeekNumber tz now))
         (getByPrefix store ''check:'')"
  by (simp add: get_delayed_checks_def Let_def)

text \<open>
  C2. The code at two failing inputs. The current pair of the handler is not the current
  ISO (year, week) in the days around the new year that belong to a week of the other
  year.

  On Monday 2024-12-30 at 12:00 UTC the ISO week is week 1 of 2025 and the handler's
  pair is (2024, 1). The table holds the device and the pending checks of weeks 50, 51
  and 52 of 2024, all before the current week: week 52, as \<open>getWeekDateRange\<close> reads
  it, ended with Sunday 2024-12-29. None of them is returned.

  On Sunday 2023-01-01 at 12:00 UTC the ISO week is week 52 of 2022, from 2022-12-26 to
  2023-01-01, and the handler's pair is (2023, 52). The table holds the device, the
  pending check of week 52 of 2022, which is the current week, and the pending check of
  week 10 of 2023, which begins on 2023-03-06. Both are returned as delayed. (A pending
  record of week 10 of 2022 under a key outside \<open>check:\<close> is in the table too; the
  handler reads the rows under \<open>check:\<close> only and does not return it.)
\<close>

theorem delayed_checks_around_new_year:
  "(getFullYear 0 1735560000000, getWeekNumber 0 1735560000000) = (2024, 1)
   \<and> map (\<lambda>c. c ''id'')
       (get_delayed_checks 0 1735560000000
          [(''device:1'', exDevice),
           (''check:2024:50:device:1'', exCheck ''2024'' ''50'' ''pending''),
           (''check:2024:51:device:1'', exCheck ''2024'' ''51'' ''pending''),
           (''check:2024:52:device:1'', exCheck ''2024'' ''52'' ''pending'')])
     = []
   \<and> getWeekDateRange 0 2024 52 = (newDate 0 2024 11 23, newDate 0 2024 11 29)
   \<and> newDate 0 2024 11 29 + msPerDay \<le> 1735560000000
   \<and> getWeekDateRange 0 2025 1 = (newDate 0 2024 11 30, newDate 0 2025 0 5)
   \<and> newDate 0 2024 11 30 \<le> 1735560000000
   \<and> 1735560000000 < newDate 0 2025 0 5 + msPerDay
   \<and> (getFullYear 0 1672574400000, getWeekNumber 0 1672574400000) = (2023, 52)
   \<and> map (\<lambda>c. c ''id'')
       (get_delayed_checks 0 1672574400000
          [(''device:1'', exDevice),
           (''archive:2022:10:device:1'', exCheck ''2022'' ''10'' ''pending''),
           (''check:2022:52:device:1'', exCheck ''2022'' ''52'' ''pending''),
           (''check:2023:10:device:1'', exCheck ''2023'' ''10'' ''pending'')])
     = [Some (JStr ''check:2022:52:device:1''), Some (JStr ''check:2023:10:device:1'')]
   \<and> getWeekDateRange 0 2022 52 = (newDate 0 2022 11 26, newDate 0 2023 0 1)
   \<and> newDate 0 2022 11 26 \<le> 1672574400000
   \<and> 1672574400000 < newDate 0 2023 0 1 + msPerDay
   \<and> getWeekDateRange 0 2023 10 = (newDate 0 2023 2 6, newDate 0 2023 2 12)
   \<and> 1672574400000 < newDate 0 2023 2 6"
  by code_simp

section \<open>Days overdue and severity\<close>

text \<open>
  The count of the source, for a check whose year and week read as numbers (exact as
  doubles, so of magnitude below 2^53), and the thresholds of the grouping and of the
  label. The current pair is the calendar year and the week number of the clock.
\<close>

lemma getDaysOverdue_numeric:
  assumes "parseInt (check ''year'') = Some y" and "parseInt (check ''week'') = Some w"
  shows "getDaysOverdue tz now check
           = Some (((getFullYear tz now - y) * 52 + (getWeekNumberClient tz now - w)) * 7)"
  using assms by (simp add: getDaysOverdue_def Let_def)

lemma category_thresholds:
  "category (Some d) = (if d \<le> 7 then ''recent''
                        else if d \<le> 14 then ''moderate'' else ''critical'')"
  by (simp add: category_def jsLess_def)

lemma getSeverityBadge_thresholds:
  "getSeverityBadge (Some d) = (if d \<le> 7 then ''Recently Overdue''
                                else if d \<le> 14 then ''Moderately Overdue''
                                else ''Critically Overdue'')"
  by (simp add: getSeverityBadge_def jsLessEq_def)

text \<open>
  C4. The code at two failing inputs. The count is taken from the calendar year and the
  week number of the clock, which is not the current ISO (year, week) around the new
  year.

  On Sunday 2023-01-01 at 12:00 UTC, in ISO week 52 of 2022, the pair of the clock is
  (2023, 52). The check of week 51 of 2022 is one week old in the same ISO year: its
  week, as \<open>getWeekDateRange\<close> reads it, ended with Sunday 2022-12-25, seven days
  before. Its count is 371 days, grouped as critical and labelled critically overdue,
  where 7 days and recent are claimed.

  On Monday 2024-12-30 at 12:00 UTC, in ISO week 1 of 2025, the pair of the clock is
  (2024, 1). The check of week 50 of 2024, whose week ended with Sunday 2024-12-15,
  gets the count -343, grouped as recent and labelled recently overdue.
\<close>

theorem days_overdue_around_new_year:
  "(getFullYear 0 1672574400000, getWeekNumberClient 0 1672574400000) = (2023, 52)
   \<and> getDaysOverdue 0 1672574400000 (exCheck ''2022'' ''51'' ''pending'') = Some 371
   \<and> category (getDaysOverdue 0 1672574400000 (exCheck ''2022'' ''51'' ''pending''))
       = ''critical''
   \<and> getSeverityBadge (getDaysOverdue 0 1672574400000 (exCheck ''2022'' ''51'' ''pending''))
       = ''Critically Overdue''
   \<and> getWeekDateRange 0 2022 51 = (newDate 0 2022 11 19, newDate 0 2022 11 25)
   \<and> newDate 0 2022 11 25 + 7 * msPerDay = newDate 0 2023 0 1
   \<and> newDate 0 2023 0 1 \<le> 1672574400000
   \<and> 1672574400000 < newDate 0 2023 0 1 + msPerDay
   \<and> (getFullYear 0 1735560000000, getWeekNumberClient 0 1735560000000) = (2024, 1)
   \<and> getDaysOverdue 0 1735560000000 (exCheck ''2024'' ''50'' ''pending'') = Some (- 343)
   \<and> category (getDaysOverdue 0 1735560000000 (exCheck ''2024'' ''50'' ''pending''))
       = ''recent''
   \<and> getSeverityBadge (getDaysOverdue 0 1735560000000 (exCheck ''2024'' ''50'' ''pending''))
       = ''Recently Overdue''
   \<and> getWeekDateRange 0 2024 50 = (newDate 0 2024 11 9, newDate 0 2024 11 15)
   \<and> newDate 0 2024 11 15 + 15 * msPerDay = newDate 0 2024 11 30
   \<and> newDate 0 2024 11 30 \<le> 1735560000000
   \<and> 1735560000000 < newDate 0 2024 11 30 + msPerDay"
  by code_simp

section \<open>Well-keyed tables\<close>

lemma kv_set_check: "startsWith key ''check:'' \<Longrightarrow> kv_set P store key v = upsert store key v"
  by (cases key) (auto simp: kv_set_def sampleUserRow_def sampleDeviceRow_def startsWith_Cons)

lemma kv_get_kv_set_check:
  "startsWith key ''check:'' \<Longrightarrow> kv_get (kv_set P store key v) key = Some v"
  by (simp add: kv_set_check kv_get_upsert)

lemma kv_get_kv_set_other:
  "k \<noteq> key \<Longrightarrow> kv_get (kv_set P store key v) k = kv_get store k"
  by (simp add: kv_set_def kv_get_upsert)


lemma fst_upsert:
  "map fst (upsert store key v)
     = (if key \<in> set (map fst store) then map fst store else map fst store @ [key])"
  by (induction store key v rule: upsert.induct) auto

lemma distinct_upsert: "distinct (map fst store) \<Longrightarrow> distinct (map fst (upsert store key v))"
  by (simp add: fst_upsert)

lemma list_all_upsert:
  "list_all Q store \<Longrightarrow> Q (key, v) \<Longrightarrow> list_all Q (upsert store key v)"
  by (induction store key v rule: upsert.induct) auto

lemma wellKeyed_upsert:
  "wellKeyed store \<Longrightarrow> keyedRow (key, v) \<Longrightarrow> wellKeyed (upsert store key v)"
  by (simp add: wellKeyed_def distinct_upsert list_all_upsert)

lemma wellKeyed_kv_set:
  "wellKeyed store \<Longrightarrow> keyedRow (key, v) \<Longrightarrow> wellKeyed (kv_set P store key v)"
  by (simp add: kv_set_def wellKeyed_upsert)

lemma wellKeyed_kv_del: "wellKeyed store \<Longrightarrow> wellKeyed (kv_del store key)"
  by (simp add: wellKeyed_def kv_del_def distinct_map_filter list_all_iff)

lemma wellKeyed_lookup:
  "wellKeyed store \<Longrightarrow> kv_get store key = Some c \<Longrightarrow> keyedRow (key, c)"
  by (auto simp: wellKeyed_def kv_get_def list_all_iff dest: map_of_SomeD)

lemma keyedRow_same_triple:
  "keyedRow (key, c) \<Longrightarrow> tripleOf c' = tripleOf c \<Longrightarrow> keyedRow (key, c')"
  by (simp add: keyedRow_def)

lemma keyedRow_other: "\<not> startsWith key ''check:'' \<Longrightarrow> keyedRow (key, v)"
  by (simp add: keyedRow_def)

lemma tripleOf_checkRecord:
  "tripleOf (checkRecord checkId deviceId week year assignedAt assignedBy)
     = (toStr year, toStr week, toStr deviceId)"
  by (simp add: tripleOf_def checkRecord_def)

lemma keyedRow_checkRecord:
  "checkId = ''check:'' @ toStr year @ '':'' @ toStr week @ '':'' @ toStr deviceId \<Longrightarrow>
   keyedRow (checkId, checkRecord checkId deviceId week year assignedAt assignedBy)"
  by (simp add: keyedRow_def tripleOf_checkRecord checkKey_def)

lemma wellKeyed_createChecks:
  "wellKeyed store \<Longrightarrow> wellKeyed (createChecks P now week year assignedBy deviceIds store)"
proof (induction deviceIds arbitrary: store)
  case Nil
  then show ?case by simp
next
  case (Cons d ds)
  have "keyedRow (''check:'' @ toStr year @ '':'' @ toStr week @ '':'' @ d,
          checkRecord (''check:'' @ toStr year @ '':'' @ toStr week @ '':'' @ d)
            (Some (JStr d)) week year (toISOString now) assignedBy)"
    by (rule keyedRow_checkRecord) (simp add: toStr_def)
  then show ?case
    using Cons by (simp add: Let_def wellKeyed_kv_set)
qed

lemma wellKeyed_post_weekly_plans:
  assumes "wellKeyed store"
  shows "wellKeyed (snd (post_weekly_plans P now week year deviceIds assignedBy store))"
proof -
  have "\<not> startsWith (''plan:'' @ toStr year @ '':'' @ toStr week) ''check:''"
    by (simp add: startsWith_Cons)
  then show ?thesis
    using assms
    by (simp add: post_weekly_plans_def Let_def wellKeyed_createChecks wellKeyed_kv_set
          keyedRow_other)
qed

lemma tripleOf_completed:
  "tripleOf (check(''status'' \<mapsto> a, ''completedBy'' := b, ''completedAt'' \<mapsto> c, ''comment'' \<mapsto> d))
     = tripleOf check"
  by (simp add: tripleOf_def)

lemma tripleOf_lastChecked:
  "tripleOf (device(''lastCheckedAt'' \<mapsto> a, ''lastCheckedBy'' := b)) = tripleOf device"
  by (simp add: tripleOf_def)

lemma wellKeyed_put_checks_complete:
  assumes wk: "wellKeyed store"
  shows "wellKeyed (snd (put_checks_complete P tz now checkId completedBy comment store))"
proof (cases "kv_get store checkId")
  case None
  then show ?thesis using wk by (simp add: put_checks_complete_def)
next
  case (Some check)
  note chk = Some
  show ?thesis
  proof (cases "kv_get store (toStr (check ''deviceId''))")
    case None
    then show ?thesis using wk chk by (simp add: put_checks_complete_def)
  next
    case (Some device)
    define uc where "uc = check(''status'' \<mapsto> JStr ''completed'', ''completedBy'' := completedBy,
        ''completedAt'' \<mapsto> JStr (toISOString now), ''comment'' \<mapsto> orEmpty comment)"
    define ud where "ud = device(''lastCheckedAt'' \<mapsto> JStr (toISOString now),
        ''lastCheckedBy'' := completedBy)"
    define s1 where "s1 = kv_set P store checkId uc"
    define s2 where "s2 = kv_set P s1 (toStr (check ''deviceId'')) ud"
    have k1: "keyedRow (checkId, uc)"
      unfolding uc_def
      by (rule keyedRow_same_triple [OF wellKeyed_lookup [OF wk chk] tripleOf_completed])
    have k2: "keyedRow (toStr (check ''deviceId''), ud)"
      unfolding ud_def
      by (rule keyedRow_same_triple [OF wellKeyed_lookup [OF wk Some] tripleOf_lastChecked])
    have w1: "wellKeyed s1" unfolding s1_def by (rule wellKeyed_kv_set [OF wk k1])
    have w2: "wellKeyed s2" unfolding s2_def by (rule wellKeyed_kv_set [OF w1 k2])
    have w3: "wellKeyed (kv_set P s2 (''check:'' @ y @ '':'' @ w @ '':'' @ toStr (check ''deviceId''))
                (checkRecord (''check:'' @ y @ '':'' @ w @ '':'' @ toStr (check ''deviceId''))
                   (check ''deviceId'') (Some (JStr w)) (Some (JStr y)) aAt aBy))"
      for y w aAt aBy
      by (rule wellKeyed_kv_set [OF w2 keyedRow_checkRecord]) (simp add: toStr_def)
    have eq: "put_checks_complete P tz now checkId completedBy comment store =
      (if check ''deviceId'' = None then (ServerError, s1)
       else case (case toNumber (device ''plannedFrequency'') of
                    None \<Rightarrow> None
                  | Some f \<Rightarrow> TimeClip (setDate tz now (getDate tz now + f * 7))) of
         None \<Rightarrow>
           (ServerError,
            kv_set P s2 (''check:'' @ ''NaN'' @ '':'' @ ''NaN'' @ '':'' @ toStr (check ''deviceId''))
              (checkRecord (''check:'' @ ''NaN'' @ '':'' @ ''NaN'' @ '':'' @ toStr (check ''deviceId''))
                 (check ''deviceId'') (Some (JStr ''NaN'')) (Some (JStr ''NaN''))
                 (toISOString now) (Some (JStr ''system''))))
       | Some nd \<Rightarrow>
           (let ny = showInt (getFullYear tz nd);
                nw = showInt (getWeekNumber tz nd)
            in (Success uc (Scheduled (''check:'' @ ny @ '':'' @ nw @ '':'' @ toStr (check ''deviceId''))
                              (getWeekNumber tz nd) (getFullYear tz nd) (toISOString nd)),
                kv_set P s2 (''check:'' @ ny @ '':'' @ nw @ '':'' @ toStr (check ''deviceId''))
                  (checkRecord (''check:'' @ ny @ '':'' @ nw @ '':'' @ toStr (check ''deviceId''))
                     (check ''deviceId'') (Some (JStr nw)) (Some (JStr ny))
                     (toISOString now) (Some (JStr ''system''))))))"
      using chk Some
      by (simp add: put_checks_complete_def Let_def uc_def ud_def s1_def s2_def
            split: option.split)
    show ?thesis
      unfolding eq Let_def using w1 w3 by (simp split: option.split del: append.simps)
  qed
qed

lemma reachable_wellKeyed: "reachable P tz store \<Longrightarrow> wellKeyed store"
proof (induction rule: reachable.induct)
  case initial
  show ?case by (simp add: wellKeyed_def)
next
  case (planned store now week year deviceIds assignedBy)
  then show ?case by (simp add: wellKeyed_post_weekly_plans)
next
  case (completed store now checkId completedBy comment)
  then show ?case by (simp add: wellKeyed_put_checks_complete)
next
  case (written store key v)
  then show ?case by (simp add: wellKeyed_kv_set keyedRow_other)
next
  case (deleted store key)
  then show ?case by (simp add: wellKeyed_kv_del)
qed

text \<open>In a table without repeated keys the rows under one key are at most one.\<close>

lemma filter_key_distinct:
  "distinct (map fst store) \<Longrightarrow>
   filter (\<lambda>r. fst r = K) store = (case map_of store K of None \<Rightarrow> [] | Some c \<Rightarrow> [(K, c)])"
proof (induction store)
  case Nil
  then show ?case by simp
next
  case (Cons r store)
  obtain k c where r: "r = (k, c)" by (cases r)
  show ?case
  proof (cases "k = K")
    case True
    then have "K \<notin> fst ` set store" using Cons.prems r by auto
    then have "filter (\<lambda>r. fst r = K) store = []"
      by (auto simp: filter_empty_conv)
    then show ?thesis using True r by simp
  next
    case False
    then show ?thesis using Cons r by simp
  qed
qed

lemma checksAt_by_key:
  assumes "wellKeyed store"
  shows "checksAt store t
           = filter (\<lambda>(k, c). tripleOf c = t) (filter (\<lambda>r. fst r = checkKey t) store)"
proof -
  have "(startsWith k ''check:'' \<and> tripleOf c = t) = (k = checkKey t \<and> tripleOf c = t)"
    if "(k, c) \<in> set store" for k c
  proof -
    have "keyedRow (k, c)" using assms that by (auto simp: wellKeyed_def list_all_iff)
    then show ?thesis
      by (auto simp: keyedRow_def checkKey_def startsWith_def)
  qed
  then have "checksAt store t = filter (\<lambda>(k, c). k = checkKey t \<and> tripleOf c = t) store"
    unfolding checksAt_def by (auto intro!: filter_cong)
  also have "\<dots> = filter (\<lambda>(k, c). tripleOf c = t) (filter (\<lambda>r. fst r = checkKey t) store)"
    by (auto intro!: filter_cong simp: conj_commute)
  finally show ?thesis .
qed

lemma checksAt_at_most_one:
  assumes "wellKeyed store"
  shows "length (checksAt store t) \<le> 1"
proof -
  have d: "distinct (map fst store)" using assms by (simp add: wellKeyed_def)
  show ?thesis
    unfolding checksAt_by_key [OF assms] filter_key_distinct [OF d]
    by (simp split: option.split)
qed

lemma checksAt_exactly:
  assumes "wellKeyed store" and "kv_get store (checkKey t) = Some c" and "tripleOf c = t"
  shows "checksAt store t = [(checkKey t, c)]"
proof -
  have d: "distinct (map fst store)" using assms(1) by (simp add: wellKeyed_def)
  show ?thesis
    unfolding checksAt_by_key [OF assms(1)] filter_key_distinct [OF d]
    using assms(2,3) by (simp add: kv_get_def)
qed

section \<open>A completion that succeeds\<close>


text \<open>
  The next date is the instant of the completion moved by \<open>7 * plannedFrequency\<close> days,
  when that is a date. Without a number for the frequency, or out of the range, the
  handler answers 500.
\<close>

lemma nextCheckDate_plus: "nextCheckDate tz now f = TimeClip (now + f * 7 * msPerDay)"
  by (simp add: nextCheckDate_def setDate_getDate_plus)

lemma nextCheckDate_Some:
  "nextCheckDate tz now f = Some nd
     \<longleftrightarrow> nd = now + f * 7 * msPerDay \<and> \<bar>nd\<bar> \<le> 8640000000000000"
  by (auto simp: nextCheckDate_plus TimeClip_def)

lemma put_checks_complete_out_of_range:
  assumes "kv_get store checkId = Some check"
      and "check ''deviceId'' = Some dv"
      and "kv_get store (toStr (Some dv)) = Some device"
      and "toNumber (device ''plannedFrequency'') = None
           \<or> (\<exists>f. toNumber (device ''plannedFrequency'') = Some f
                   \<and> nextCheckDate tz now f = None)"
  shows "fst (put_checks_complete P tz now checkId completedBy comment store) = ServerError"
  using assms
  by (auto simp: put_checks_complete_def Let_def nextCheckDate_def)

text \<open>
  A device checked every 100000000000 weeks: the next date is no date, the handler
  answers 500 after its three writes, and the next check is under \<open>check:NaN:NaN\<close>.
\<close>

lemma completion_out_of_range_example:
  "nextCheckDate 0 1742202000000 100000000000 = None
   \<and> (case put_checks_complete False 0 1742202000000 ''check:2025:10:device:1''
              (Some (JStr ''E1'')) None
              [(''device:1'', exDevice(''plannedFrequency'' \<mapsto> JNum 100000000000)),
               (''check:2025:10:device:1'', exCheck ''2025'' ''10'' ''pending'')] of
         (ServerError, s) \<Rightarrow>
           map fst s = [''device:1'', ''check:2025:10:device:1'', ''check:NaN:NaN:device:1'']
       | _ \<Rightarrow> False)"
  by code_simp




section \<open>The status of a check under completion\<close>




section \<open>What a completion leaves unchanged\<close>




section \<open>Weekly plans\<close>

lemma createChecks_keeps:
  assumes "kv_get store (''check:'' @ toStr year @ '':'' @ toStr week @ '':'' @ d)
             = Some (checkRecord (''check:'' @ toStr year @ '':'' @ toStr week @ '':'' @ d)
                       (Some (JStr d)) week year (toISOString now) assignedBy)"
  shows "kv_get (createChecks P now week year assignedBy deviceIds store)
             (''check:'' @ toStr year @ '':'' @ toStr week @ '':'' @ d)
           = Some (checkRecord (''check:'' @ toStr year @ '':'' @ toStr week @ '':'' @ d)
                     (Some (JStr d)) week year (toISOString now) assignedBy)"
  using assms
proof (induction deviceIds arbitrary: store)
  case Nil
  then show ?case by simp
next
  case (Cons e es)
  let ?K = "\<lambda>x. ''check:'' @ toStr year @ '':'' @ toStr week @ '':'' @ x"
  let ?R = "\<lambda>x. checkRecord (?K x) (Some (JStr x)) week year (toISOString now) assignedBy"
  have k: "startsWith (?K e) ''check:''" by (simp add: startsWith_Cons)
  have "kv_get (kv_set P store (?K e) (?R e)) (?K d) = Some (?R d)"
  proof (cases "e = d")
    case True
    then show ?thesis using kv_get_kv_set_check [OF k] by simp
  next
    case False
    then have "?K d \<noteq> ?K e" by simp
    then show ?thesis using Cons.prems by (simp add: kv_get_kv_set_other)
  qed
  then show ?case
    using Cons.IH by (simp add: Let_def)
qed

lemma createChecks_writes:
  assumes "d \<in> set deviceIds"
  shows "kv_get (createChecks P now week year assignedBy deviceIds store)
             (''check:'' @ toStr year @ '':'' @ toStr week @ '':'' @ d)
           = Some (checkRecord (''check:'' @ toStr year @ '':'' @ toStr week @ '':'' @ d)
                     (Some (JStr d)) week year (toISOString now) assignedBy)"
  using assms
proof (induction deviceIds arbitrary: store)
  case Nil
  then show ?case by simp
next
  case (Cons e es)
  let ?K = "\<lambda>x. ''check:'' @ toStr year @ '':'' @ toStr week @ '':'' @ x"
  let ?R = "\<lambda>x. checkRecord (?K x) (Some (JStr x)) week year (toISOString now) assignedBy"
  show ?case
  proof (cases "e = d")
    case True
    have k: "startsWith (?K d) ''check:''" by (simp add: startsWith_Cons)
    have "kv_get (createChecks P now week year assignedBy es (kv_set P store (?K d) (?R d)))
            (?K d) = Some (?R d)"
      by (rule createChecks_keeps) (rule kv_get_kv_set_check [OF k])
    then show ?thesis using True by (simp add: Let_def)
  next
    case False
    then have "d \<in> set es" using Cons.prems by simp
    then show ?thesis using Cons.IH by (simp add: Let_def)
  qed
qed

text \<open>
  C6. In a table the modelled operations can produce, two plans for the same year and
  week, with any device lists, leave for every device \<open>d\<close> of the second list exactly
  one check with the triple (year, week, \<open>d\<close>): it is stored under
  \<open>check:<year>:<week>:<d>\<close>, pending, and its \<open>assignedBy\<close> is the second plan's. The
  same plan made twice is the case of two equal lists. And in every such table no two
  checks share a triple: the rows that are checks with a given triple are at most one.
\<close>

theorem weekly_plans_one_check_per_device:
  assumes "reachable P tz store" and "d \<in> set deviceIds2"
  shows "(let s1 = snd (post_weekly_plans P now1 week year deviceIds1 assignedBy1 store);
              s2 = snd (post_weekly_plans P now2 week year deviceIds2 assignedBy2 s1);
              t = (toStr year, toStr week, d)
          in (\<exists>c. checksAt s2 t = [(checkKey t, c)]
                   \<and> c ''assignedBy'' = assignedBy2
                   \<and> c ''status'' = Some (JStr ''pending''))
             \<and> (\<forall>t'. length (checksAt s2 t') \<le> 1))
         \<and> (\<forall>t'. length (checksAt store t') \<le> 1)"
proof -
  define s1 where "s1 = snd (post_weekly_plans P now1 week year deviceIds1 assignedBy1 store)"
  define s2 where "s2 = snd (post_weekly_plans P now2 week year deviceIds2 assignedBy2 s1)"
  define t where "t = (toStr year, toStr week, d)"
  define c where "c = checkRecord (checkKey t) (Some (JStr d)) week year
                        (toISOString now2) assignedBy2"
  have r1: "reachable P tz s1"
    unfolding s1_def by (rule reachable.planned [OF assms(1)])
  have r2: "reachable P tz s2"
    unfolding s2_def by (rule reachable.planned [OF r1])
  have w0: "wellKeyed store" by (rule reachable_wellKeyed [OF assms(1)])
  have w2: "wellKeyed s2" by (rule reachable_wellKeyed [OF r2])
  have key: "checkKey t = ''check:'' @ toStr year @ '':'' @ toStr week @ '':'' @ d"
    by (simp add: checkKey_def t_def)
  have g: "kv_get s2 (checkKey t) = Some c"
    unfolding s2_def post_weekly_plans_def Let_def snd_conv key c_def
    by (rule createChecks_writes [OF assms(2)])
  have tr: "tripleOf c = t"
    by (simp add: c_def tripleOf_checkRecord t_def toStr_def)
  have "checksAt s2 t = [(checkKey t, c)]"
    by (rule checksAt_exactly [OF w2 g tr])
  moreover have "c ''assignedBy'' = assignedBy2" "c ''status'' = Some (JStr ''pending'')"
    by (simp_all add: c_def checkRecord_def)
  ultimately have "\<exists>c. checksAt s2 t = [(checkKey t, c)]
                       \<and> c ''assignedBy'' = assignedBy2
                       \<and> c ''status'' = Some (JStr ''pending'')"
    by blast
  then show ?thesis
    unfolding Let_def s1_def [symmetric] s2_def [symmetric] t_def [symmetric]
    using checksAt_at_most_one [OF w2] checksAt_at_most_one [OF w0] by blast
qed

text \<open>
  Witness: from the empty table, a plan by E5 for week 10 of 2025 with the devices D1
  and D2, then a plan by E6 for the same week with D2 and D3; the check of D2.
\<close>

theorem weekly_plans_one_check_per_device_witness:
  "reachable False 0 []
   \<and> ''D2'' \<in> set [''D2'', ''D3'']
   \<and> (let s1 = snd (post_weekly_plans False 1741597200000 (Some (JNum 10)) (Some (JNum 2025))
                      [''D1'', ''D2''] (Some (JStr ''E5'')) []);
          s2 = snd (post_weekly_plans False 1741600800000 (Some (JNum 10)) (Some (JNum 2025))
                      [''D2'', ''D3''] (Some (JStr ''E6'')) s1);
          t = (toStr (Some (JNum 2025)), toStr (Some (JNum 10)), ''D2'')
      in (\<exists>c. checksAt s2 t = [(checkKey t, c)]
               \<and> c ''assignedBy'' = Some (JStr ''E6'')
               \<and> c ''status'' = Some (JStr ''pending''))
         \<and> (\<forall>t'. length (checksAt s2 t') \<le> 1))
   \<and> checkKey (toStr (Some (JNum 2025)), toStr (Some (JNum 10)), ''D2'') = ''check:2025:10:D2''"
proof -
  have h1: "reachable False 0 []" by (rule reachable.initial)
  have h2: "''D2'' \<in> set [''D2'', ''D3'']" by simp
  have k: "checkKey (toStr (Some (JNum 2025)), toStr (Some (JNum 10)), ''D2'')
             = ''check:2025:10:D2''"
    by code_simp
  show ?thesis
    using h1 h2 k
      weekly_plans_one_check_per_device [OF h1 h2,
        of 1741597200000 "Some (JNum 10)" "Some (JNum 2025)" "[''D1'', ''D2'']"
           "Some (JStr ''E5'')" 1741600800000 "Some (JStr ''E6'')"]
    by blast
qed

end
